theory Spec2Isabelle
  imports Complex_Main
begin

section \<open>Values of a parsed response body\<close>

text \<open>
  \<^verbatim>\<open>resp.json()\<close> hands the program Python values built from JSON: \<^verbatim>\<open>None\<close>, booleans,
  integers, floats, strings, lists and dictionaries. A float is kept by its value (a
  finite double is a rational; the parser also accepts infinities and NaN). A dictionary
  is an association list read with \<open>map_of\<close>, so the first binding of a key is the one
  the dictionary holds.
\<close>

datatype pyfloat = Finite rat | Infinity bool | NaN

datatype json =
    JNull
  | JBool bool
  | JInt int
  | JFloat pyfloat
  | JStr string
  | JList "json list"
  | JObj "(string \<times> json) list"

text \<open>Truth value testing, as \<^verbatim>\<open>if x:\<close>, \<^verbatim>\<open>while x:\<close> and \<^verbatim>\<open>x or y\<close> use it.\<close>

fun py_truthy :: "json \<Rightarrow> bool" where
  "py_truthy JNull = False"
| "py_truthy (JBool b) = b"
| "py_truthy (JInt i) = (i \<noteq> 0)"
| "py_truthy (JFloat x) = (x \<noteq> Finite 0)"
| "py_truthy (JStr s) = (s \<noteq> [])"
| "py_truthy (JList xs) = (xs \<noteq> [])"
| "py_truthy (JObj kvs) = (kvs \<noteq> [])"

text \<open>
  The exceptions the program can raise. \<open>RuntimeError\<close> is the one it raises itself
  (line 111); the others come from the operations it applies to the payload.
\<close>

datatype error =
    AttributeError
  | KeyError
  | TypeError
  | JSONDecodeError
  | RequestException
  | RuntimeError string

text \<open>
  \<^verbatim>\<open>d.get(k, default)\<close>. Only a dictionary has the method: on any other value the
  attribute lookup raises \<open>AttributeError\<close>.
\<close>

fun dict_get :: "json \<Rightarrow> string \<Rightarrow> json \<Rightarrow> error + json" where
  "dict_get (JObj kvs) k dflt = Inr (case map_of kvs k of None \<Rightarrow> dflt | Some v \<Rightarrow> v)"
| "dict_get _ k dflt = Inl AttributeError"

text \<open>\<^verbatim>\<open>d[k]\<close> on a value that was read from a dictionary.\<close>

fun dict_item :: "json \<Rightarrow> string \<Rightarrow> error + json" where
  "dict_item (JObj kvs) k = (case map_of kvs k of None \<Rightarrow> Inl KeyError | Some v \<Rightarrow> Inr v)"
| "dict_item _ k = Inl TypeError"

text \<open>
  A replacement field of an f-string. A string is inserted as it is. The text of any
  other value is produced by the language runtime (\<^verbatim>\<open>format(v, "")\<close>), which is not part
  of the program: it is the parameter \<open>fmt\<close>.
\<close>

definition py_format :: "(json \<Rightarrow> string) \<Rightarrow> json \<Rightarrow> string" where
  "py_format fmt v = (case v of JStr s \<Rightarrow> s | _ \<Rightarrow> fmt v)"

text \<open>\<^verbatim>\<open>str(n)\<close> of an integer: decimal digits, with a sign when negative.\<close>

fun digits :: "nat \<Rightarrow> string" where
  "digits n =
     (if n < 10 then [''0123456789'' ! n]
      else digits (n div 10) @ [''0123456789'' ! (n mod 10)])"

declare digits.simps [simp del]

definition str_int :: "int \<Rightarrow> string" where
  "str_int i = (if i < 0 then CHR ''-'' # digits (nat (- i)) else digits (nat i))"

section \<open>The parameter builder and the date normalizer\<close>

type_synonym params = "(string \<times> string) list"

definition get_params ::
  "string \<Rightarrow> string \<Rightarrow> string \<Rightarrow> string \<Rightarrow> string \<Rightarrow> int \<Rightarrow> string \<Rightarrow> params" where
  "get_params api_key startDateTime endDateTime city countryCode size' sort' =
     [(''apikey'', api_key),
      (''city'', city),
      (''countryCode'', countryCode),
      (''startDateTime'', startDateTime),
      (''endDateTime'', endDateTime),
      (''size'', str_int size'),
      (''sort'', sort')]"

text \<open>
  \<^verbatim>\<open>dt.strftime(...)\<close> belongs to the standard library; \<open>strftime\<close> is a parameter and the
  type of a datetime is left open.
\<close>

definition get_iso_date :: "('dt \<Rightarrow> string \<Rightarrow> string) \<Rightarrow> 'dt \<Rightarrow> string" where
  "get_iso_date strftime dt = strftime dt ''%Y-%m-%dT%H:%M:%SZ''"

text \<open>
  Lines 62 to 67. Each \<^verbatim>\<open>.get\<close> is a step that can raise; \<^verbatim>\<open>x or y\<close> is \<open>x\<close> when \<open>x\<close> is
  true and \<open>y\<close> otherwise. The result is whatever value the payload holds under
  \<^verbatim>\<open>dateTime\<close>, or a string assembled here.
\<close>

definition extract_event_datetime :: "(json \<Rightarrow> string) \<Rightarrow> json \<Rightarrow> error + json" where
  "extract_event_datetime fmt ev =
     (case dict_get ev ''dates'' (JObj []) of
        Inl e \<Rightarrow> Inl e
      | Inr dates \<Rightarrow>
     (case dict_get dates ''start'' (JObj []) of
        Inl e \<Rightarrow> Inl e
      | Inr start \<Rightarrow>
     (case dict_get start ''dateTime'' JNull of
        Inl e \<Rightarrow> Inl e
      | Inr dt \<Rightarrow>
          if py_truthy dt then dict_item start ''dateTime''
          else
     (case dict_get start ''localDate'' JNull of
        Inl e \<Rightarrow> Inl e
      | Inr local_date \<Rightarrow>
     (case dict_get start ''localTime'' JNull of
        Inl e \<Rightarrow> Inl e
      | Inr lt \<Rightarrow>
          let local_time = (if py_truthy lt then lt else JStr ''00:00:00'')
          in Inr (if py_truthy local_date
                  then JStr (py_format fmt local_date @ ''T'' @ py_format fmt local_time)
                  else JStr ''''))))))"

section \<open>The pagination exporter\<close>

text \<open>
  A response as the program reads it: the status code, the raw body (\<^verbatim>\<open>resp.text\<close>),
  and the result of \<^verbatim>\<open>resp.json()\<close> (\<open>None\<close> when the body does not parse, which
  raises).
\<close>

record response =
  status_code :: int
  body_text :: string
  body_json :: "json option"

text \<open>
  The network is the environment. A run is played against a script: the k-th call of
  \<^verbatim>\<open>requests.get\<close> is answered by the k-th entry, a response or a failure of the call
  itself (a URL the library refuses, a transport error).
\<close>

datatype reply = Reply response | Failure

text \<open>
  What the program does to the outside world, in order: opening and closing the output
  file, writing a row (the list of cells handed to \<^verbatim>\<open>writer.writerow\<close>; the quoting and
  encoding of the row are the csv module's), and issuing a request (the URL and the
  query parameters, \<open>None\<close> when there are none). Writing to standard output (the block
  of lines 115 to 121) is not recorded; the one way that block fails, a body that is
  not a dictionary, is the way line 124 fails right after it.
\<close>

datatype effect =
    Open string
  | WriteRow "json list"
  | Get json "params option"
  | Close

text \<open>
  How a run ends: it returns, it raises, or the script has no reply for a request that
  was issued (the run needs a longer script).
\<close>

datatype outcome = Returned | Raised error | Unanswered

definition ROOT :: string where
  "ROOT = ''https://app.ticketmaster.com/discovery/v2/events.json''"

text \<open>Lines 126 and 127: the two cells of an event's row.\<close>

definition event_row :: "(json \<Rightarrow> string) \<Rightarrow> json \<Rightarrow> error + json list" where
  "event_row fmt ev =
     (case dict_get ev ''name'' (JStr '''') of
        Inl e \<Rightarrow> Inl e
      | Inr name \<Rightarrow>
     (case extract_event_datetime fmt ev of
        Inl e \<Rightarrow> Inl e
      | Inr when \<Rightarrow> Inr [name, when]))"

text \<open>
  The \<^verbatim>\<open>for\<close> loop of lines 125 to 128: one row per event, written as soon as it is
  computed; an exception leaves the rows written so far in place.
\<close>

fun write_events :: "(json \<Rightarrow> string) \<Rightarrow> json list \<Rightarrow> error option \<times> effect list" where
  "write_events fmt [] = (None, [])"
| "write_events fmt (ev # evs) =
     (case event_row fmt ev of
        Inl e \<Rightarrow> (Some e, [])
      | Inr row \<Rightarrow>
          (case write_events fmt evs of (r, effs) \<Rightarrow> (r, WriteRow row # effs)))"

text \<open>
  What \<^verbatim>\<open>for ev in events\<close> iterates over: the elements of a list, the keys of a
  dictionary, the characters of a string; any other value is not iterable.
\<close>

fun py_iter :: "json \<Rightarrow> error + json list" where
  "py_iter (JList xs) = Inr xs"
| "py_iter (JObj kvs) = Inr (map (\<lambda>kv. JStr (fst kv)) kvs)"
| "py_iter (JStr s) = Inr (map (\<lambda>c. JStr [c]) s)"
| "py_iter _ = Inl TypeError"

text \<open>Line 124 and the head of line 125.\<close>

definition page_events :: "json \<Rightarrow> error + json list" where
  "page_events data =
     (case dict_get data ''_embedded'' (JObj []) of
        Inl e \<Rightarrow> Inl e
      | Inr embedded \<Rightarrow>
     (case dict_get embedded ''events'' (JList []) of
        Inl e \<Rightarrow> Inl e
      | Inr events \<Rightarrow> py_iter events))"

text \<open>Lines 130 to 132.\<close>

definition next_href :: "json \<Rightarrow> error + json" where
  "next_href data =
     (case dict_get data ''_links'' (JObj []) of
        Inl e \<Rightarrow> Inl e
      | Inr links \<Rightarrow>
     (case dict_get links ''next'' (JObj []) of
        Inl e \<Rightarrow> Inl e
      | Inr next_link \<Rightarrow> dict_get next_link ''href'' JNull))"

text \<open>
  Lines 124 to 132, the part of the loop body that follows a successful response: the
  rows of the page, then the new value of \<^verbatim>\<open>next_url\<close>.
\<close>

definition process_page :: "(json \<Rightarrow> string) \<Rightarrow> json \<Rightarrow> (error + json) \<times> effect list" where
  "process_page fmt data =
     (case page_events data of
        Inl e \<Rightarrow> (Inl e, [])
      | Inr events \<Rightarrow>
     (case write_events fmt events of
        (Some e, effs) \<Rightarrow> (Inl e, effs)
      | (None, effs) \<Rightarrow>
     (case next_href data of
        Inl e \<Rightarrow> (Inl e, effs)
      | Inr next_url \<Rightarrow> (Inr next_url, effs))))"

text \<open>
  The \<^verbatim>\<open>while\<close> loop of lines 108 to 133, started with the current \<^verbatim>\<open>next_url\<close> and
  \<^verbatim>\<open>params\<close>. Every iteration takes one reply from the script.
\<close>

fun paginate ::
  "(json \<Rightarrow> string) \<Rightarrow> json \<Rightarrow> params option \<Rightarrow> reply list \<Rightarrow> outcome \<times> effect list" where
  "paginate fmt next_url params script =
     (if \<not> py_truthy next_url then (Returned, [])
      else
        let request = Get next_url (if next_url = JStr ROOT then params else None)
        in case script of
             [] \<Rightarrow> (Unanswered, [request])
           | Failure # rest \<Rightarrow> (Raised RequestException, [request])
           | Reply resp # rest \<Rightarrow>
               if status_code resp \<noteq> 200
               then (Raised (RuntimeError
                       (''API error '' @ str_int (status_code resp) @ '': '' @ body_text resp)),
                     [request])
               else
                 (case body_json resp of
                    None \<Rightarrow> (Raised JSONDecodeError, [request])
                  | Some data \<Rightarrow>
                      (case process_page fmt data of
                         (Inl e, effs) \<Rightarrow> (Raised e, request # effs)
                       | (Inr url, effs) \<Rightarrow>
                           (case paginate fmt url None rest of
                              (out, effs') \<Rightarrow> (out, request # effs @ effs')))))"

declare paginate.simps [simp del]

text \<open>
  Lines 91 to 133. The file is opened and the header written before the loop; the
  \<^verbatim>\<open>with\<close> block closes the file when the loop returns or raises.
\<close>

definition fetch_all_events_to_csv ::
  "('dt \<Rightarrow> string \<Rightarrow> string) \<Rightarrow> (json \<Rightarrow> string) \<Rightarrow>
   string \<Rightarrow> string \<Rightarrow> string \<Rightarrow> 'dt \<Rightarrow> 'dt \<Rightarrow> string \<Rightarrow> reply list \<Rightarrow> outcome \<times> effect list" where
  "fetch_all_events_to_csv strftime fmt api_key city country start end out_csv script =
     (let params = get_params api_key (get_iso_date strftime start) (get_iso_date strftime end)
                     city country 200 ''date,asc''
      in case paginate fmt (JStr ROOT) (Some params) script of
           (out, effs) \<Rightarrow>
             (out,
              Open out_csv # WriteRow [JStr ''event_name'', JStr ''event_datetime''] # effs
                @ (if out = Unanswered then [] else [Close])))"

section \<open>Notions the properties are stated with\<close>

text \<open>
  The rows of a list of events when every event yields one; \<open>None\<close> when some event
  raises.
\<close>

fun all_rows :: "(json \<Rightarrow> string) \<Rightarrow> json list \<Rightarrow> json list list option" where
  "all_rows fmt [] = Some []"
| "all_rows fmt (ev # evs) =
     (case event_row fmt ev of
        Inl e \<Rightarrow> None
      | Inr row \<Rightarrow> map_option ((#) row) (all_rows fmt evs))"

text \<open>
  A reply is a page when it is a response with status 200 whose body parses, whose events
  all yield rows and whose links can be read: then it carries these rows and this value
  for the next link (\<open>JNull\<close> when the body names none).
\<close>

definition page_of :: "(json \<Rightarrow> string) \<Rightarrow> reply \<Rightarrow> (json list list \<times> json) option" where
  "page_of fmt r =
     (case r of
        Failure \<Rightarrow> None
      | Reply resp \<Rightarrow>
          if status_code resp \<noteq> 200 then None
          else
            (case body_json resp of
               None \<Rightarrow> None
             | Some data \<Rightarrow>
                 (case page_events data of
                    Inl e \<Rightarrow> None
                  | Inr events \<Rightarrow>
                      (case all_rows fmt events of
                         None \<Rightarrow> None
                       | Some rows \<Rightarrow>
                           (case next_href data of
                              Inl e \<Rightarrow> None
                            | Inr url \<Rightarrow> Some (rows, url))))))"

text \<open>The rows written and the requests issued, in the order of a list of effects.\<close>

fun rows_written :: "effect list \<Rightarrow> json list list" where
  "rows_written [] = []"
| "rows_written (WriteRow row # effs) = row # rows_written effs"
| "rows_written (_ # effs) = rows_written effs"

fun requests_issued :: "effect list \<Rightarrow> (json \<times> params option) list" where
  "requests_issued [] = []"
| "requests_issued (Get url ps # effs) = (url, ps) # requests_issued effs"
| "requests_issued (_ # effs) = requests_issued effs"

text \<open>
  The precedence of the date normalizer, on the start structure of an event: a field is
  available when the structure holds its key with a true value.
\<close>

definition available :: "(string \<times> json) list \<Rightarrow> string \<Rightarrow> bool" where
  "available s k = (case map_of s k of None \<Rightarrow> False | Some v \<Rightarrow> py_truthy v)"

definition field :: "(string \<times> json) list \<Rightarrow> string \<Rightarrow> json" where
  "field s k = (case map_of s k of None \<Rightarrow> JNull | Some v \<Rightarrow> v)"

definition precedence :: "(json \<Rightarrow> string) \<Rightarrow> (string \<times> json) list \<Rightarrow> json" where
  "precedence fmt s =
     (if available s ''dateTime'' then field s ''dateTime''
      else if available s ''localDate''
        then JStr (py_format fmt (field s ''localDate'') @ ''T'' @
                   (if available s ''localTime'' then py_format fmt (field s ''localTime'')
                    else ''00:00:00''))
      else JStr '''')"

section \<open>Example inputs\<close>

text \<open>
  An instance of \<open>fmt\<close>: the text of \<^verbatim>\<open>None\<close>, of a boolean and of an integer. The
  examples hold no float, list or dictionary where a text is needed; there this instance
  gives the empty string. An instance of \<open>strftime\<close>: a datetime given by its text.
\<close>

fun py_str_plain :: "json \<Rightarrow> string" where
  "py_str_plain JNull = ''None''"
| "py_str_plain (JBool b) = (if b then ''True'' else ''False'')"
| "py_str_plain (JInt i) = str_int i"
| "py_str_plain (JStr s) = s"
| "py_str_plain _ = ''''"

definition iso_text :: "string \<Rightarrow> string \<Rightarrow> string" where
  "iso_text dt f = dt"

text \<open>A successful response with the given parsed body.\<close>

definition ok_reply :: "json \<Rightarrow> reply" where
  "ok_reply data = Reply \<lparr>status_code = 200, body_text = '''', body_json = Some data\<rparr>"

text \<open>Event records: with a full timestamp, with a local date only.\<close>

definition ev_show_a :: json where
  "ev_show_a =
     JObj [(''name'', JStr ''Show A''),
           (''dates'', JObj [(''start'', JObj [(''dateTime'', JStr ''2025-10-05T19:00:00Z'')])])]"

definition ev_show_b :: json where
  "ev_show_b =
     JObj [(''name'', JStr ''Show B''),
           (''dates'', JObj [(''start'', JObj [(''localDate'', JStr ''2025-10-06'')])])]"

text \<open>
  Bodies: a page that names a next page, a last page, and a page whose next link is the
  empty string.
\<close>

definition page_with_next :: json where
  "page_with_next =
     JObj [(''_embedded'', JObj [(''events'', JList [ev_show_a])]),
           (''_links'',
            JObj [(''next'',
              JObj [(''href'',
                JStr ''https://app.ticketmaster.com/discovery/v2/events.json?page=1'')])])]"

definition page_last :: json where
  "page_last =
     JObj [(''_embedded'', JObj [(''events'', JList [ev_show_b])]),
           (''_links'', JObj [(''self'', JObj [(''href'', JStr ''/discovery/v2/events.json?page=1'')])])]"

definition page_empty_href :: json where
  "page_empty_href =
     JObj [(''_embedded'', JObj [(''events'', JList [ev_show_a])]),
           (''_links'', JObj [(''next'', JObj [(''href'', JStr '''')])])]"

text \<open>
  Event records with a field that is present and empty, with no \<^verbatim>\<open>dates\<close>, and with
  \<^verbatim>\<open>dates\<close> but no \<^verbatim>\<open>start\<close>.
\<close>

definition ev_empty_timestamp :: json where
  "ev_empty_timestamp =
     JObj [(''name'', JStr ''Show C''),
           (''dates'', JObj [(''start'',
              JObj [(''dateTime'', JStr ''''), (''localDate'', JStr ''2025-10-06'')])])]"

definition ev_empty_local_date :: json where
  "ev_empty_local_date =
     JObj [(''name'', JStr ''Show E''),
           (''dates'', JObj [(''start'',
              JObj [(''localDate'', JStr ''''), (''localTime'', JStr ''19:30:00'')])])]"

definition ev_no_dates :: json where
  "ev_no_dates = JObj [(''name'', JStr ''Show D'')]"


text \<open>
  A body with no events that names a next page, a response that is not a success, and a
  body whose next link is the root endpoint itself.
\<close>

definition page_no_events :: json where
  "page_no_events =
     JObj [(''_links'',
            JObj [(''next'',
              JObj [(''href'',
                JStr ''https://app.ticketmaster.com/discovery/v2/events.json?page=2'')])])]"

definition not_found :: response where
  "not_found = \<lparr>status_code = 404, body_text = ''Not Found'', body_json = None\<rparr>"

definition page_next_is_root :: json where
  "page_next_is_root =
     JObj [(''_embedded'', JObj [(''events'', JList [ev_show_a])]),
           (''_links'',
            JObj [(''next'',
              JObj [(''href'',
                JStr ''https://app.ticketmaster.com/discovery/v2/events.json'')])])]"

text \<open>
  An event record whose \<^verbatim>\<open>dates\<close> is null and a page holding it, a page with three
  events and no links, and a page with no events whose \<^verbatim>\<open>_links\<close> is null.
\<close>

definition ev_null_dates :: json where
  "ev_null_dates = JObj [(''name'', JStr ''Show N''), (''dates'', JNull)]"

definition page_null_dates :: json where
  "page_null_dates = JObj [(''_embedded'', JObj [(''events'', JList [ev_null_dates])])]"

definition page_three_events :: json where
  "page_three_events =
     JObj [(''_embedded'', JObj [(''events'', JList [ev_show_b, ev_no_dates, ev_show_a])])]"

definition page_null_links :: json where
  "page_null_links =
     JObj [(''_embedded'', JObj [(''events'', JList [])]), (''_links'', JNull)]"

text \<open>The run of the examples: its arguments, and the parameters built from them.\<close>

definition example_params :: params where
  "example_params =
     [(''apikey'', ''key''), (''city'', ''Calgary''), (''countryCode'', ''CA''),
      (''startDateTime'', ''2025-10-01T00:00:00Z''),
      (''endDateTime'', ''2025-12-01T00:00:00Z''),
      (''size'', ''200''), (''sort'', ''date,asc'')]"

definition run_example :: "reply list \<Rightarrow> outcome \<times> effect list" where
  "run_example script =
     fetch_all_events_to_csv iso_text py_str_plain ''key'' ''Calgary'' ''CA''
       ''2025-10-01T00:00:00Z'' ''2025-12-01T00:00:00Z'' ''events.csv'' script"

section \<open>Lemmas on the date normalizer\<close>

lemma extract_start:
  assumes "dict_get ev ''dates'' (JObj []) = Inr dates"
    and "dict_get dates ''start'' (JObj []) = Inr (JObj s)"
  shows "extract_event_datetime fmt ev = Inr (precedence fmt s)"
  using assms
  by (simp add: extract_event_datetime_def precedence_def available_def field_def Let_def
      py_format_def split: option.splits)


text \<open>
  A level that is present and is not a mapping is another matter: \<^verbatim>\<open>.get\<close> is then
  looked up on a value that has no such method.
\<close>

lemma dates_not_a_mapping:
  "extract_event_datetime fmt (JObj [(''dates'', JNull)]) = Inl AttributeError"
  by (simp add: extract_event_datetime_def)

lemma start_not_a_mapping:
  "extract_event_datetime fmt (JObj [(''dates'', JObj [(''start'', JNull)])])
     = Inl AttributeError"
  by (simp add: extract_event_datetime_def)

lemma extract_start_obj:
  assumes "map_of ev ''dates'' = None \<and> s = [] \<or>
           map_of ev ''dates'' = Some (JObj dates) \<and> map_of dates ''start'' = None \<and> s = [] \<or>
           map_of ev ''dates'' = Some (JObj dates) \<and> map_of dates ''start'' = Some (JObj s)"
  shows "extract_event_datetime fmt (JObj ev) = Inr (precedence fmt s)"
proof -
  from assms have "\<exists>d. dict_get (JObj ev) ''dates'' (JObj []) = Inr d \<and>
      dict_get d ''start'' (JObj []) = Inr (JObj s)"
    by auto
  then show ?thesis using extract_start by blast
qed

section \<open>Lemmas on the loop\<close>

lemma rows_written_append [simp]: "rows_written (xs @ ys) = rows_written xs @ rows_written ys"
  by (induction xs rule: rows_written.induct) simp_all

lemma requests_issued_append [simp]:
  "requests_issued (xs @ ys) = requests_issued xs @ requests_issued ys"
  by (induction xs rule: requests_issued.induct) simp_all

lemma rows_written_WriteRows [simp]: "rows_written (map WriteRow rows) = rows"
  by (induction rows) simp_all

lemma requests_issued_WriteRows [simp]: "requests_issued (map WriteRow rows) = []"
  by (induction rows) simp_all

lemma write_events_all_rows:
  "all_rows fmt evs = Some rows \<Longrightarrow> write_events fmt evs = (None, map WriteRow rows)"
  by (induction evs arbitrary: rows) (auto split: sum.splits)

lemma write_events_stops:
  "all_rows fmt evs = None \<Longrightarrow>
   \<exists>e rows. write_events fmt evs = (Some e, map WriteRow rows)"
proof (induction evs)
  case Nil
  then show ?case by simp
next
  case (Cons ev evs)
  show ?case
  proof (cases "event_row fmt ev")
    case (Inl e)
    then have "write_events fmt (ev # evs) = (Some e, map WriteRow [])" by simp
    then show ?thesis by blast
  next
    case (Inr row)
    with Cons.prems have "all_rows fmt evs = None" by simp
    with Cons.IH obtain e rows where "write_events fmt evs = (Some e, map WriteRow rows)"
      by blast
    with Inr have "write_events fmt (ev # evs) = (Some e, map WriteRow (row # rows))" by simp
    then show ?thesis by blast
  qed
qed

lemma process_page_ok:
  assumes "page_events data = Inr evs" and "all_rows fmt evs = Some rows"
    and "next_href data = Inr url"
  shows "process_page fmt data = (Inr url, map WriteRow rows)"
  using assms by (simp add: process_page_def write_events_all_rows)

lemma paginate_stop: "\<not> py_truthy u \<Longrightarrow> paginate fmt u p script = (Returned, [])"
  by (simp add: paginate.simps)

lemma paginate_page:
  assumes "py_truthy u" and "page_of fmt r = Some (rows, url)"
  shows "paginate fmt u p (r # rest) =
           (case paginate fmt url None rest of
              (out, effs) \<Rightarrow>
                (out, Get u (if u = JStr ROOT then p else None) # map WriteRow rows @ effs))"
proof -
  from assms(2) obtain resp data evs where r: "r = Reply resp"
    and st: "status_code resp = 200" and bj: "body_json resp = Some data"
    and pe: "page_events data = Inr evs" and ar: "all_rows fmt evs = Some rows"
    and nh: "next_href data = Inr url"
    by (auto simp: page_of_def split: reply.splits if_splits option.splits sum.splits)
  have "process_page fmt data = (Inr url, map WriteRow rows)"
    using pe ar nh by (rule process_page_ok)
  then show ?thesis
    using assms(1) r st bj by (simp add: paginate.simps [of fmt u] Let_def split: prod.splits)
qed

lemma process_page_fails:
  assumes "(\<exists>e. page_events data = Inl e) \<or> (\<exists>evs. page_events data = Inr evs \<and>
            (all_rows fmt evs = None \<or> (\<exists>e. next_href data = Inl e)))"
  shows "\<exists>e rows. process_page fmt data = (Inl e, map WriteRow rows)"
proof -
  consider (a) e where "page_events data = Inl e"
    | (b) evs where "page_events data = Inr evs" "all_rows fmt evs = None"
    | (c) evs rows e where "page_events data = Inr evs" "all_rows fmt evs = Some rows"
        "next_href data = Inl e"
    using assms by (cases "page_events data") auto
  then show ?thesis
  proof cases
    case a
    then have "process_page fmt data = (Inl e, map WriteRow [])" by (simp add: process_page_def)
    then show ?thesis by blast
  next
    case b
    from write_events_stops [OF b(2)] obtain e rows where
      "write_events fmt evs = (Some e, map WriteRow rows)" by blast
    with b(1) have "process_page fmt data = (Inl e, map WriteRow rows)"
      by (simp add: process_page_def)
    then show ?thesis by blast
  next
    case c
    then have "process_page fmt data = (Inl e, map WriteRow rows)"
      by (simp add: process_page_def write_events_all_rows)
    then show ?thesis by blast
  qed
qed

lemma paginate_no_page:
  assumes "py_truthy u" and "page_of fmt r = None"
  shows "\<exists>e rows. paginate fmt u p (r # rest) =
           (Raised e, Get u (if u = JStr ROOT then p else None) # map WriteRow rows)"
proof (cases r)
  case Failure
  then have "paginate fmt u p (r # rest) =
      (Raised RequestException, Get u (if u = JStr ROOT then p else None) # map WriteRow [])"
    using assms(1) by (simp add: paginate.simps [of fmt u] Let_def)
  then show ?thesis by blast
next
  case (Reply resp)
  show ?thesis
  proof (cases "status_code resp = 200")
    case False
    then have "paginate fmt u p (r # rest) =
      (Raised (RuntimeError (''API error '' @ str_int (status_code resp) @ '': '' @ body_text resp)),
       Get u (if u = JStr ROOT then p else None) # map WriteRow [])"
      using assms(1) Reply by (simp add: paginate.simps [of fmt u] Let_def)
    then show ?thesis by blast
  next
    case True
    show ?thesis
    proof (cases "body_json resp")
      case None
      then have "paginate fmt u p (r # rest) =
        (Raised JSONDecodeError, Get u (if u = JStr ROOT then p else None) # map WriteRow [])"
        using assms(1) Reply True by (simp add: paginate.simps [of fmt u] Let_def)
      then show ?thesis by blast
    next
      case (Some data)
      have "\<exists>e rows. process_page fmt data = (Inl e, map WriteRow rows)"
        using assms(2) Reply True Some
        by (intro process_page_fails)
           (auto simp: page_of_def split: sum.splits option.splits)
      then obtain e rows where "process_page fmt data = (Inl e, map WriteRow rows)" by blast
      then have "paginate fmt u p (r # rest) =
        (Raised e, Get u (if u = JStr ROOT then p else None) # map WriteRow rows)"
        using assms(1) Reply True Some by (simp add: paginate.simps [of fmt u] Let_def)
      then show ?thesis by blast
    qed
  qed
qed

lemma Get_in_rows: "xs @ Get url ps # ys = map WriteRow rows @ zs \<Longrightarrow>
  \<exists>mid. xs = map WriteRow rows @ mid \<and> zs = mid @ Get url ps # ys"
proof (induction rows arbitrary: xs)
  case Nil
  then show ?case by simp
next
  case (Cons row rows)
  then show ?case by (cases xs) auto
qed

lemma paginate_order:
  "snd (paginate fmt u p script) = pre @ Get url ps # post \<Longrightarrow>
   \<exists>pages. map (page_of fmt) (take (length (requests_issued pre)) script) = map Some pages \<and>
           rows_written pre = concat (map fst pages)"
proof (induction script arbitrary: u p pre)
  case Nil
  then have "pre = []"
    by (cases pre) (auto simp: paginate.simps [of fmt u] Let_def split: if_splits)
  then show ?case by simp
next
  case (Cons r rest)
  have tr: "py_truthy u"
    using Cons.prems by (auto simp: paginate.simps [of fmt u] split: if_splits)
  let ?g = "Get u (if u = JStr ROOT then p else None)"
  show ?case
  proof (cases "page_of fmt r")
    case None
    from paginate_no_page [OF tr None] obtain e rows where
      "paginate fmt u p (r # rest) = (Raised e, ?g # map WriteRow rows)" by blast
    with Cons.prems have eq: "pre @ Get url ps # post = ?g # map WriteRow rows" by simp
    have "pre = []"
    proof (cases pre)
      case Nil then show ?thesis .
    next
      case (Cons x pre')
      with eq have "pre' @ Get url ps # post = map WriteRow rows @ []" by simp
      from Get_in_rows [OF this] show ?thesis by simp
    qed
    then show ?thesis by simp
  next
    case (Some pg)
    obtain rows url' where pg: "pg = (rows, url')" by (cases pg)
    obtain out effs where rec: "paginate fmt url' None rest = (out, effs)"
      by (cases "paginate fmt url' None rest")
    have "paginate fmt u p (r # rest) = (out, ?g # map WriteRow rows @ effs)"
      using paginate_page [OF tr Some [unfolded pg]] rec by simp
    with Cons.prems have eq: "pre @ Get url ps # post = ?g # map WriteRow rows @ effs" by simp
    show ?thesis
    proof (cases pre)
      case Nil then show ?thesis by simp
    next
      case (Cons x pre')
      with eq have x: "x = ?g" and "pre' @ Get url ps # post = map WriteRow rows @ effs"
        by simp_all
      from Get_in_rows [OF this(2)] obtain mid where
        mid: "pre' = map WriteRow rows @ mid" "effs = mid @ Get url ps # post" by blast
      from mid(2) rec have "snd (paginate fmt url' None rest) = mid @ Get url ps # post" by simp
      from Cons.IH [OF this] obtain pages where
        pages: "map (page_of fmt) (take (length (requests_issued mid)) rest) = map Some pages"
          "rows_written mid = concat (map fst pages)" by blast
      have "map (page_of fmt) (take (length (requests_issued pre)) (r # rest))
              = map Some ((rows, url') # pages)"
        using Cons x mid(1) pages(1) Some pg by simp
      moreover have "rows_written pre = concat (map fst ((rows, url') # pages))"
        using Cons x mid(1) pages(2) by simp
      ultimately show ?thesis by blast
    qed
  qed
qed

lemma write_rows_no_Open: "Open f \<notin> set (map WriteRow rows)"
  by auto

lemma paginate_no_Open: "Open f \<notin> set (snd (paginate fmt u p script))"
proof (induction script arbitrary: u p)
  case Nil
  then show ?case by (simp add: paginate.simps [of fmt u] Let_def)
next
  case (Cons r rest)
  show ?case
  proof (cases "py_truthy u")
    case False
    then show ?thesis by (simp add: paginate_stop)
  next
    case True
    show ?thesis
    proof (cases "page_of fmt r")
      case None
      from paginate_no_page [OF True None] obtain e rows where
        "paginate fmt u p (r # rest) =
           (Raised e, Get u (if u = JStr ROOT then p else None) # map WriteRow rows)" by blast
      then show ?thesis by auto
    next
      case (Some pg)
      obtain rows url' where pg: "pg = (rows, url')" by (cases pg)
      obtain out effs where rec: "paginate fmt url' None rest = (out, effs)"
        by (cases "paginate fmt url' None rest")
      have "paginate fmt u p (r # rest) =
          (out, Get u (if u = JStr ROOT then p else None) # map WriteRow rows @ effs)"
        using paginate_page [OF True Some [unfolded pg]] rec by simp
      moreover have "Open f \<notin> set effs" using Cons.IH [of url' None] rec by simp
      ultimately show ?thesis by auto
    qed
  qed
qed

lemma paginate_requests:
  "py_truthy u \<Longrightarrow>
   \<exists>pages. map (page_of fmt) (take (length pages) script) = map Some pages \<and>
     requests_issued (snd (paginate fmt u p script)) =
       (u, if u = JStr ROOT then p else None) # map (\<lambda>pg. (snd pg, None)) pages"
proof (induction script arbitrary: u p)
  case Nil
  then have "requests_issued (snd (paginate fmt u p [])) =
      (u, if u = JStr ROOT then p else None) # map (\<lambda>pg. (snd pg, None)) []"
    by (simp add: paginate.simps [of fmt u] Let_def)
  then show ?case by (intro exI [of _ "[]"]) simp
next
  case (Cons r rest)
  let ?q = "if u = JStr ROOT then p else None"
  show ?case
  proof (cases "page_of fmt r")
    case None
    from paginate_no_page [OF Cons.prems None] obtain e rows where
      "paginate fmt u p (r # rest) = (Raised e, Get u ?q # map WriteRow rows)" by blast
    then have "requests_issued (snd (paginate fmt u p (r # rest))) =
        (u, ?q) # map (\<lambda>pg. (snd pg, None)) []" by simp
    then show ?thesis by (intro exI [of _ "[]"]) simp
  next
    case (Some pg)
    obtain rows url' where pg: "pg = (rows, url')" by (cases pg)
    obtain out effs where rec: "paginate fmt url' None rest = (out, effs)"
      by (cases "paginate fmt url' None rest")
    have run: "paginate fmt u p (r # rest) = (out, Get u ?q # map WriteRow rows @ effs)"
      using paginate_page [OF Cons.prems Some [unfolded pg]] rec by simp
    show ?thesis
    proof (cases "py_truthy url'")
      case False
      with rec have "effs = []" by (simp add: paginate_stop)
      with run have "requests_issued (snd (paginate fmt u p (r # rest))) =
        (u, ?q) # map (\<lambda>pg. (snd pg, None)) []" by simp
      then show ?thesis by (intro exI [of _ "[]"]) simp
    next
      case True
      from Cons.IH [OF True, of None] rec obtain pages where
        pages: "map (page_of fmt) (take (length pages) rest) = map Some pages"
          "requests_issued effs = (url', None) # map (\<lambda>pg. (snd pg, None)) pages"
        by auto
      have "map (page_of fmt) (take (length ((rows, url') # pages)) (r # rest))
              = map Some ((rows, url') # pages)"
        using pages(1) Some pg by simp
      moreover have "requests_issued (snd (paginate fmt u p (r # rest))) =
          (u, ?q) # map (\<lambda>pg. (snd pg, None)) ((rows, url') # pages)"
        using run pages(2) by simp
      ultimately show ?thesis by blast
    qed
  qed
qed


lemma fetch_unfold:
  "fetch_all_events_to_csv strftime fmt api_key city country start end out_csv script =
     (case paginate fmt (JStr ROOT)
         (Some (get_params api_key (get_iso_date strftime start) (get_iso_date strftime end)
                  city country 200 ''date,asc'')) script of
        (out, effs) \<Rightarrow>
          (out, Open out_csv # WriteRow [JStr ''event_name'', JStr ''event_datetime''] # effs
                @ (if out = Unanswered then [] else [Close])))"
  by (simp add: fetch_all_events_to_csv_def Let_def)

lemma ROOT_truthy: "py_truthy (JStr ROOT)"
  by (simp add: ROOT_def)

lemma fetch_effects:
  "\<exists>closing. snd (fetch_all_events_to_csv strftime fmt api_key city country start end out_csv script) =
     Open out_csv # WriteRow [JStr ''event_name'', JStr ''event_datetime''] #
       snd (paginate fmt (JStr ROOT)
         (Some (get_params api_key (get_iso_date strftime start) (get_iso_date strftime end)
                  city country 200 ''date,asc'')) script) @ closing \<and>
     (closing = [] \<or> closing = [Close])"
  by (simp add: fetch_unfold split: prod.splits)

lemma fetch_requests:
  "requests_issued (snd (fetch_all_events_to_csv strftime fmt api_key city country start end out_csv script)) =
     requests_issued (snd (paginate fmt (JStr ROOT)
         (Some (get_params api_key (get_iso_date strftime start) (get_iso_date strftime end)
                  city country 200 ''date,asc'')) script))"
  by (simp add: fetch_unfold split: prod.splits)



text \<open>
  An event that is reached yields its row: the pages before it were processed and the
  events before it on its page were written.
\<close>

lemma write_events_append:
  "all_rows fmt evs1 = Some rows1 \<Longrightarrow>
   write_events fmt (evs1 @ evs) =
     (fst (write_events fmt evs), map WriteRow rows1 @ snd (write_events fmt evs))"
  by (induction evs1 arbitrary: rows1) (auto split: sum.splits prod.splits)

lemma process_page_effects:
  "page_events data = Inr evs \<Longrightarrow> snd (process_page fmt data) = snd (write_events fmt evs)"
  by (simp add: process_page_def split: prod.splits option.splits sum.splits)

lemma paginate_reply_effects:
  assumes "py_truthy u" and "status_code resp = 200" and "body_json resp = Some data"
  shows "\<exists>tail. snd (paginate fmt u p (Reply resp # rest)) =
           Get u (if u = JStr ROOT then p else None) # snd (process_page fmt data) @ tail"
  using assms
  by (simp add: paginate.simps [of fmt u] Let_def split: prod.splits sum.splits)

lemma paginate_prefix:
  assumes "map (page_of fmt) before = map Some pages"
    and "\<forall>pg \<in> set pages. py_truthy (snd pg)" and "py_truthy u"
  shows "\<exists>pre u' p'. py_truthy u' \<and>
           snd (paginate fmt u p (before @ rest)) = pre @ snd (paginate fmt u' p' rest) \<and>
           rows_written pre = concat (map fst pages)"
  using assms
proof (induction before arbitrary: u p pages)
  case Nil
  then have "snd (paginate fmt u p ([] @ rest)) = [] @ snd (paginate fmt u p rest) \<and>
      rows_written [] = concat (map fst pages)" by simp
  with Nil.prems(3) show ?case by blast
next
  case (Cons r bs)
  from Cons.prems(1) obtain pg pgs where pages: "pages = pg # pgs"
    and pg: "page_of fmt r = Some pg" and bs: "map (page_of fmt) bs = map Some pgs"
    by (cases pages) auto
  obtain rows url where pgd: "pg = (rows, url)" by (cases pg)
  from Cons.prems(2) pages pgd have tr: "py_truthy url"
    and all: "\<forall>pg \<in> set pgs. py_truthy (snd pg)" by simp_all
  let ?g = "Get u (if u = JStr ROOT then p else None)"
  have run: "snd (paginate fmt u p ((r # bs) @ rest)) =
      ?g # map WriteRow rows @ snd (paginate fmt url None (bs @ rest))"
    using paginate_page [OF Cons.prems(3) pg [unfolded pgd], of p "bs @ rest"]
    by (simp split: prod.splits)
  from Cons.IH [OF bs all tr, of None] obtain pre u' p' where
    IH: "py_truthy u'" "snd (paginate fmt url None (bs @ rest)) = pre @ snd (paginate fmt u' p' rest)"
      "rows_written pre = concat (map fst pgs)" by blast
  have "snd (paginate fmt u p ((r # bs) @ rest)) =
      (?g # map WriteRow rows @ pre) @ snd (paginate fmt u' p' rest)"
    using run IH(2) by simp
  moreover have "rows_written (?g # map WriteRow rows @ pre) = concat (map fst pages)"
    using IH(3) pages pgd by simp
  ultimately show ?case using IH(1) by blast
qed

lemma event_row_written:
  assumes "map (page_of fmt) before = map Some pages"
    and "\<forall>pg \<in> set pages. py_truthy (snd pg)"
    and "status_code resp = 200" and "body_json resp = Some data"
    and "page_events data = Inr (evs1 @ ev # evs2)"
    and "all_rows fmt evs1 = Some rows1"
    and "event_row fmt ev = Inr row"
  shows "\<exists>pre post.
           snd (fetch_all_events_to_csv strftime fmt api_key city country start end out_csv
                  (before @ Reply resp # rest)) = pre @ WriteRow row # post \<and>
           rows_written pre =
             [JStr ''event_name'', JStr ''event_datetime''] # concat (map fst pages) @ rows1"
proof -
  let ?hdr = "[JStr ''event_name'', JStr ''event_datetime'']"
  let ?ps = "Some (get_params api_key (get_iso_date strftime start) (get_iso_date strftime end)
                  city country 200 ''date,asc'')"
  from paginate_prefix [OF assms(1,2) ROOT_truthy, of ?ps "Reply resp # rest"]
  obtain pre u' p' where tr: "py_truthy u'"
    and run: "snd (paginate fmt (JStr ROOT) ?ps (before @ Reply resp # rest)) =
        pre @ snd (paginate fmt u' p' (Reply resp # rest))"
    and rows: "rows_written pre = concat (map fst pages)" by blast
  from paginate_reply_effects [OF tr assms(3,4), of fmt p' rest]
  obtain tail where pg: "snd (paginate fmt u' p' (Reply resp # rest)) =
      Get u' (if u' = JStr ROOT then p' else None) # snd (process_page fmt data) @ tail" by blast
  have "snd (write_events fmt (ev # evs2)) = WriteRow row # snd (write_events fmt evs2)"
    using assms(7) by (simp split: prod.splits)
  then have pp: "snd (process_page fmt data) =
      map WriteRow rows1 @ WriteRow row # snd (write_events fmt evs2)"
    using process_page_effects [OF assms(5), of fmt] write_events_append [OF assms(6), of "ev # evs2"]
    by simp
  from fetch_effects [of strftime fmt api_key city country start "end" out_csv
      "before @ Reply resp # rest"]
  obtain closing where
    "snd (fetch_all_events_to_csv strftime fmt api_key city country start end out_csv
        (before @ Reply resp # rest)) =
      Open out_csv # WriteRow ?hdr #
        snd (paginate fmt (JStr ROOT) ?ps (before @ Reply resp # rest)) @ closing" by blast
  then have "snd (fetch_all_events_to_csv strftime fmt api_key city country start end out_csv
        (before @ Reply resp # rest)) =
      (Open out_csv # WriteRow ?hdr # pre @
         Get u' (if u' = JStr ROOT then p' else None) # map WriteRow rows1)
      @ WriteRow row # (snd (write_events fmt evs2) @ tail @ closing)"
    using run pg pp by simp
  moreover have "rows_written (Open out_csv # WriteRow ?hdr # pre @
         Get u' (if u' = JStr ROOT then p' else None) # map WriteRow rows1) =
      ?hdr # concat (map fst pages) @ rows1"
    using rows by simp
  ultimately show ?thesis by blast
qed

section \<open>The example runs\<close>

lemmas eval_defs = page_of_def ok_reply_def page_events_def next_href_def event_row_def
  extract_event_datetime_def py_format_def ev_show_a_def ev_show_b_def
  page_with_next_def page_last_def page_empty_href_def

text \<open>The rows of the two sample events.\<close>

lemma show_a_row:
  "event_row py_str_plain ev_show_a = Inr [JStr ''Show A'', JStr ''2025-10-05T19:00:00Z'']"
  by (simp add: eval_defs)

lemma show_b_row:
  "event_row py_str_plain ev_show_b = Inr [JStr ''Show B'', JStr ''2025-10-06T00:00:00'']"
  by (simp add: eval_defs)

lemma page_with_next_eval:
  "page_of py_str_plain (ok_reply page_with_next) =
     Some ([[JStr ''Show A'', JStr ''2025-10-05T19:00:00Z'']],
           JStr ''https://app.ticketmaster.com/discovery/v2/events.json?page=1'')"
  by (simp add: eval_defs)

lemma page_last_eval:
  "page_of py_str_plain (ok_reply page_last) =
     Some ([[JStr ''Show B'', JStr ''2025-10-06T00:00:00'']], JNull)"
  by (simp add: eval_defs)


lemma page_next_is_root_eval:
  "page_of py_str_plain (ok_reply page_next_is_root) =
     Some ([[JStr ''Show A'', JStr ''2025-10-05T19:00:00Z'']], JStr ROOT)"
  by (simp add: eval_defs page_next_is_root_def ROOT_def)

lemma example_params_eq:
  "get_params ''key'' (get_iso_date iso_text ''2025-10-01T00:00:00Z'')
     (get_iso_date iso_text ''2025-12-01T00:00:00Z'') ''Calgary'' ''CA'' 200 ''date,asc''
   = example_params"
proof -
  have "str_int 200 = ''200''" by code_simp
  then show ?thesis
    by (simp add: get_params_def get_iso_date_def iso_text_def example_params_def)
qed

lemma run_example_unfold:
  "run_example script =
     (case paginate py_str_plain (JStr ROOT) (Some example_params) script of
        (out, effs) \<Rightarrow>
          (out, Open ''events.csv'' # WriteRow [JStr ''event_name'', JStr ''event_datetime''] # effs
                @ (if out = Unanswered then [] else [Close])))"
  by (simp add: run_example_def fetch_unfold example_params_eq)

lemma run_two_pages:
  "run_example [ok_reply page_with_next, ok_reply page_last] =
     (Returned,
      [Open ''events.csv'',
       WriteRow [JStr ''event_name'', JStr ''event_datetime''],
       Get (JStr ROOT) (Some example_params),
       WriteRow [JStr ''Show A'', JStr ''2025-10-05T19:00:00Z''],
       Get (JStr ''https://app.ticketmaster.com/discovery/v2/events.json?page=1'') None,
       WriteRow [JStr ''Show B'', JStr ''2025-10-06T00:00:00''],
       Close])"
proof -
  have "paginate py_str_plain JNull None [] = (Returned, [])"
    by (simp add: paginate_stop)
  then have "paginate py_str_plain
      (JStr ''https://app.ticketmaster.com/discovery/v2/events.json?page=1'') None
      [ok_reply page_last] =
      (Returned, [Get (JStr ''https://app.ticketmaster.com/discovery/v2/events.json?page=1'') None,
         WriteRow [JStr ''Show B'', JStr ''2025-10-06T00:00:00'']])"
    using paginate_page [OF _ page_last_eval, of
        "JStr ''https://app.ticketmaster.com/discovery/v2/events.json?page=1''" None "[]"]
    by (simp add: ROOT_def)
  then show ?thesis
    using paginate_page [OF ROOT_truthy page_with_next_eval, of _ "[ok_reply page_last]"]
    by (simp add: run_example_unfold)
qed

lemma run_root_link:
  "run_example [ok_reply page_next_is_root, ok_reply page_last] =
     (Returned,
      [Open ''events.csv'',
       WriteRow [JStr ''event_name'', JStr ''event_datetime''],
       Get (JStr ROOT) (Some example_params),
       WriteRow [JStr ''Show A'', JStr ''2025-10-05T19:00:00Z''],
       Get (JStr ROOT) None,
       WriteRow [JStr ''Show B'', JStr ''2025-10-06T00:00:00''],
       Close])"
proof -
  have "paginate py_str_plain JNull None [] = (Returned, [])"
    by (simp add: paginate_stop)
  then have "paginate py_str_plain (JStr ROOT) None [ok_reply page_last] =
      (Returned, [Get (JStr ROOT) None, WriteRow [JStr ''Show B'', JStr ''2025-10-06T00:00:00'']])"
    using paginate_page [OF ROOT_truthy page_last_eval, of None "[]"] by simp
  then show ?thesis
    using paginate_page [OF ROOT_truthy page_next_is_root_eval, of _ "[ok_reply page_last]"]
    by (simp add: run_example_unfold)
qed


lemma page_three_events_eval:
  "page_events page_three_events = Inr [ev_show_b, ev_no_dates, ev_show_a]"
  by (simp add: page_events_def page_three_events_def)

lemma run_null_dates:
  "run_example [ok_reply page_null_dates] =
     (Raised AttributeError,
      [Open ''events.csv'',
       WriteRow [JStr ''event_name'', JStr ''event_datetime''],
       Get (JStr ROOT) (Some example_params),
       Close])"
proof -
  have "process_page py_str_plain page_null_dates = (Inl AttributeError, [])"
    by (simp add: process_page_def page_events_def page_null_dates_def ev_null_dates_def
        event_row_def extract_event_datetime_def)
  then show ?thesis
    using ROOT_truthy
    by (simp add: run_example_unfold paginate.simps [of _ "JStr ROOT"] ok_reply_def Let_def)
qed

lemma run_null_links:
  "run_example [ok_reply page_null_links, ok_reply page_last] =
     (Raised AttributeError,
      [Open ''events.csv'',
       WriteRow [JStr ''event_name'', JStr ''event_datetime''],
       Get (JStr ROOT) (Some example_params),
       Close])"
proof -
  have "process_page py_str_plain page_null_links = (Inl AttributeError, [])"
    by (simp add: process_page_def page_events_def page_null_links_def next_href_def)
  then show ?thesis
    using ROOT_truthy
    by (simp add: run_example_unfold paginate.simps [of _ "JStr ROOT"] ok_reply_def Let_def)
qed

section \<open>Properties\<close>



text \<open>
  C2, amended. For every event record whose \<^verbatim>\<open>dates.start\<close> structure holds a
  \<^verbatim>\<open>dateTime\<close> that is true (for a string: non-empty), the normalizer returns that value
  unchanged.
\<close>

theorem full_timestamp_unchanged:
  assumes "map_of ev ''dates'' = Some (JObj dates)"
    and "map_of dates ''start'' = Some (JObj start)"
    and "map_of start ''dateTime'' = Some v"
    and "py_truthy v"
  shows "extract_event_datetime fmt (JObj ev) = Inr v"
  using assms by (simp add: extract_event_datetime_def)

theorem full_timestamp_unchanged_witness:
  "map_of [(''name'', JStr ''Show A''),
           (''dates'', JObj [(''start'', JObj [(''dateTime'', JStr ''2025-10-05T19:00:00Z'')])])]
      ''dates'' = Some (JObj [(''start'', JObj [(''dateTime'', JStr ''2025-10-05T19:00:00Z'')])]) \<and>
   map_of [(''start'', JObj [(''dateTime'', JStr ''2025-10-05T19:00:00Z'')])] ''start'' =
     Some (JObj [(''dateTime'', JStr ''2025-10-05T19:00:00Z'')]) \<and>
   map_of [(''dateTime'', JStr ''2025-10-05T19:00:00Z'')] ''dateTime'' =
     Some (JStr ''2025-10-05T19:00:00Z'') \<and>
   py_truthy (JStr ''2025-10-05T19:00:00Z'') \<and>
   extract_event_datetime py_str_plain ev_show_a = Inr (JStr ''2025-10-05T19:00:00Z'')"
proof -
  have d: "map_of [(''name'', JStr ''Show A''),
           (''dates'', JObj [(''start'', JObj [(''dateTime'', JStr ''2025-10-05T19:00:00Z'')])])]
      ''dates'' = Some (JObj [(''start'', JObj [(''dateTime'', JStr ''2025-10-05T19:00:00Z'')])])"
    by simp
  have s: "map_of [(''start'', JObj [(''dateTime'', JStr ''2025-10-05T19:00:00Z'')])] ''start'' =
     Some (JObj [(''dateTime'', JStr ''2025-10-05T19:00:00Z'')])" by simp
  have t: "map_of [(''dateTime'', JStr ''2025-10-05T19:00:00Z'')] ''dateTime'' =
     Some (JStr ''2025-10-05T19:00:00Z'')" by simp
  have v: "py_truthy (JStr ''2025-10-05T19:00:00Z'')" by simp
  from full_timestamp_unchanged [OF d s t v, of py_str_plain] d s t v
  show ?thesis unfolding ev_show_a_def by blast
qed

text \<open>
  C2 as stated fails for a \<^verbatim>\<open>dateTime\<close> that is present and empty: line 63 tests the
  truth of the value, so the local date is used instead.
\<close>

theorem full_timestamp_counterexample:
  "map_of [(''dateTime'', JStr ''''), (''localDate'', JStr ''2025-10-06'')] ''dateTime'' =
     Some (JStr '''') \<and>
   extract_event_datetime py_str_plain ev_empty_timestamp = Inr (JStr ''2025-10-06T00:00:00'') \<and>
   extract_event_datetime py_str_plain ev_empty_timestamp \<noteq> Inr (JStr '''')"
  by (simp add: extract_event_datetime_def ev_empty_timestamp_def py_format_def)

text \<open>
  C3, amended. For every event record without a \<^verbatim>\<open>dateTime\<close> whose \<^verbatim>\<open>localDate\<close> is true
  (for a string: non-empty), the normalizer returns the local date, the letter T and the
  local time, where the local time is \<^verbatim>\<open>00:00:00\<close> when it is absent or false.
\<close>

theorem local_date_and_time:
  assumes "map_of ev ''dates'' = Some (JObj dates)"
    and "map_of dates ''start'' = Some (JObj start)"
    and "map_of start ''dateTime'' = None"
    and "map_of start ''localDate'' = Some local_date"
    and "py_truthy local_date"
  shows "extract_event_datetime fmt (JObj ev) =
           Inr (JStr (py_format fmt local_date @ ''T'' @
                  (case map_of start ''localTime'' of
                     None \<Rightarrow> ''00:00:00''
                   | Some local_time \<Rightarrow>
                       if py_truthy local_time then py_format fmt local_time else ''00:00:00'')))"
  using assms by (simp add: extract_event_datetime_def py_format_def split: option.splits)

theorem local_date_and_time_witness:
  "map_of [(''name'', JStr ''Show B''),
           (''dates'', JObj [(''start'', JObj [(''localDate'', JStr ''2025-10-06'')])])]
      ''dates'' = Some (JObj [(''start'', JObj [(''localDate'', JStr ''2025-10-06'')])]) \<and>
   map_of [(''start'', JObj [(''localDate'', JStr ''2025-10-06'')])] ''start'' =
     Some (JObj [(''localDate'', JStr ''2025-10-06'')]) \<and>
   map_of [(''localDate'', JStr ''2025-10-06'')] ''dateTime'' = None \<and>
   map_of [(''localDate'', JStr ''2025-10-06'')] ''localDate'' = Some (JStr ''2025-10-06'') \<and>
   py_truthy (JStr ''2025-10-06'') \<and>
   extract_event_datetime py_str_plain ev_show_b = Inr (JStr ''2025-10-06T00:00:00'')"
proof -
  have d: "map_of [(''name'', JStr ''Show B''),
           (''dates'', JObj [(''start'', JObj [(''localDate'', JStr ''2025-10-06'')])])]
      ''dates'' = Some (JObj [(''start'', JObj [(''localDate'', JStr ''2025-10-06'')])])" by simp
  have s: "map_of [(''start'', JObj [(''localDate'', JStr ''2025-10-06'')])] ''start'' =
     Some (JObj [(''localDate'', JStr ''2025-10-06'')])" by simp
  have t: "map_of [(''localDate'', JStr ''2025-10-06'')] ''dateTime'' = None" by simp
  have l: "map_of [(''localDate'', JStr ''2025-10-06'')] ''localDate'' = Some (JStr ''2025-10-06'')"
    by simp
  have v: "py_truthy (JStr ''2025-10-06'')" by simp
  from local_date_and_time [OF d s t l v, of py_str_plain] d s t l v
  show ?thesis unfolding ev_show_b_def by (simp add: py_format_def)
qed

text \<open>
  C3 as stated fails for a \<^verbatim>\<open>localDate\<close> that is present and empty: line 67 tests the
  truth of the value and returns the empty string, not \<^verbatim>\<open>T19:30:00\<close>.
\<close>

theorem local_date_counterexample:
  "map_of [(''localDate'', JStr ''''), (''localTime'', JStr ''19:30:00'')] ''dateTime'' = None \<and>
   map_of [(''localDate'', JStr ''''), (''localTime'', JStr ''19:30:00'')] ''localDate'' =
     Some (JStr '''') \<and>
   extract_event_datetime py_str_plain ev_empty_local_date = Inr (JStr '''') \<and>
   extract_event_datetime py_str_plain ev_empty_local_date \<noteq> Inr (JStr ('''' @ ''T'' @ ''19:30:00''))"
  by (simp add: extract_event_datetime_def ev_empty_local_date_def py_format_def)

text \<open>
  C4. When the first response has a status code other than 200, the exporter raises the
  error that carries the status code and the raw body, after exactly one request and
  with the header as the only row written; the file is closed.
\<close>

theorem non_success_first_response:
  assumes "status_code resp \<noteq> 200"
  shows "fetch_all_events_to_csv strftime fmt api_key city country start end out_csv
           (Reply resp # rest) =
         (Raised (RuntimeError
            (''API error '' @ str_int (status_code resp) @ '': '' @ body_text resp)),
          [Open out_csv, WriteRow [JStr ''event_name'', JStr ''event_datetime''],
           Get (JStr ROOT)
             (Some (get_params api_key (get_iso_date strftime start)
                      (get_iso_date strftime end) city country 200 ''date,asc'')),
           Close])"
  using assms ROOT_truthy
  by (simp add: fetch_unfold paginate.simps [of fmt "JStr ROOT"] Let_def)

theorem non_success_first_response_witness:
  "status_code not_found \<noteq> 200 \<and>
   fetch_all_events_to_csv iso_text py_str_plain ''key'' ''Calgary'' ''CA''
       ''2025-10-01T00:00:00Z'' ''2025-12-01T00:00:00Z'' ''events.csv''
       [Reply not_found, ok_reply page_last] =
     (Raised (RuntimeError ''API error 404: Not Found''),
      [Open ''events.csv'',
       WriteRow [JStr ''event_name'', JStr ''event_datetime''],
       Get (JStr ROOT)
         (Some [(''apikey'', ''key''), (''city'', ''Calgary''), (''countryCode'', ''CA''),
                (''startDateTime'', ''2025-10-01T00:00:00Z''),
                (''endDateTime'', ''2025-12-01T00:00:00Z''),
                (''size'', ''200''), (''sort'', ''date,asc'')]),
       Close])"
proof -
  have size: "str_int 200 = ''200''" by code_simp
  have code: "str_int 404 = ''404''" by code_simp
  have h: "status_code not_found \<noteq> 200" by (simp add: not_found_def)
  from non_success_first_response [OF h, where strftime = iso_text and fmt = py_str_plain
        and api_key = "''key''" and city = "''Calgary''"
          and country = "''CA''" and start = "''2025-10-01T00:00:00Z''"
          and ?end = "''2025-12-01T00:00:00Z''" and out_csv = "''events.csv''"
          and rest = "[ok_reply page_last]"] h
  show ?thesis
    by (simp add: get_params_def get_iso_date_def iso_text_def size code not_found_def)
qed

text \<open>
  C5, amended. Take an event record that lacks both \<^verbatim>\<open>dateTime\<close> and \<^verbatim>\<open>localDate\<close> and in
  which \<^verbatim>\<open>dates\<close> and, inside it, \<^verbatim>\<open>start\<close> are each absent or a mapping. The normalizer
  returns the empty string for it. When the exporter reaches the event (the replies
  before its page are pages with a true next link, and the events before it on its page
  yield rows), it writes a row for it, holding its name and an empty date-time, right
  after the rows of everything before it.
\<close>

theorem no_date_still_a_row:
  assumes "map_of ev ''dates'' = None \<and> s = [] \<or>
           map_of ev ''dates'' = Some (JObj dates) \<and> map_of dates ''start'' = None \<and> s = [] \<or>
           map_of ev ''dates'' = Some (JObj dates) \<and> map_of dates ''start'' = Some (JObj s)"
    and "map_of s ''dateTime'' = None" and "map_of s ''localDate'' = None"
    and "map (page_of fmt) before = map Some pages"
    and "\<forall>pg \<in> set pages. py_truthy (snd pg)"
    and "status_code resp = 200" and "body_json resp = Some data"
    and "page_events data = Inr (evs1 @ JObj ev # evs2)"
    and "all_rows fmt evs1 = Some rows1"
  shows "extract_event_datetime fmt (JObj ev) = Inr (JStr '''') \<and>
         (\<exists>pre post.
            snd (fetch_all_events_to_csv strftime fmt api_key city country start end out_csv
                   (before @ Reply resp # rest)) =
              pre @ WriteRow [case map_of ev ''name'' of None \<Rightarrow> JStr '''' | Some name \<Rightarrow> name,
                              JStr ''''] # post \<and>
            rows_written pre =
              [JStr ''event_name'', JStr ''event_datetime''] # concat (map fst pages) @ rows1)"
proof -
  have "precedence fmt s = JStr ''''"
    using assms(2,3) by (simp add: precedence_def available_def)
  with extract_start_obj [OF assms(1)]
  have e: "extract_event_datetime fmt (JObj ev) = Inr (JStr '''')" by simp
  then have row: "event_row fmt (JObj ev) =
      Inr [case map_of ev ''name'' of None \<Rightarrow> JStr '''' | Some name \<Rightarrow> name, JStr '''']"
    by (simp add: event_row_def)
  show ?thesis
    by (rule conjI [OF e event_row_written [OF assms(4-9) row]])
qed

theorem no_date_still_a_row_witness:
  "(map_of [(''name'', JStr ''Show D'')] ''dates'' = None \<and> ([] :: (string \<times> json) list) = []) \<and>
   map_of ([] :: (string \<times> json) list) ''dateTime'' = None \<and>
   map_of ([] :: (string \<times> json) list) ''localDate'' = None \<and>
   map (page_of py_str_plain) [ok_reply page_with_next] =
     map Some [([[JStr ''Show A'', JStr ''2025-10-05T19:00:00Z'']],
                JStr ''https://app.ticketmaster.com/discovery/v2/events.json?page=1'')] \<and>
   page_events page_three_events =
     Inr ([ev_show_b] @ JObj [(''name'', JStr ''Show D'')] # [ev_show_a]) \<and>
   all_rows py_str_plain [ev_show_b] = Some [[JStr ''Show B'', JStr ''2025-10-06T00:00:00'']] \<and>
   extract_event_datetime py_str_plain ev_no_dates = Inr (JStr '''') \<and>
   (\<exists>pre post.
      snd (run_example [ok_reply page_with_next, ok_reply page_three_events]) =
        pre @ WriteRow [JStr ''Show D'', JStr ''''] # post \<and>
      rows_written pre =
        [[JStr ''event_name'', JStr ''event_datetime''],
         [JStr ''Show A'', JStr ''2025-10-05T19:00:00Z''],
         [JStr ''Show B'', JStr ''2025-10-06T00:00:00'']])"
proof -
  let ?pages = "[([[JStr ''Show A'', JStr ''2025-10-05T19:00:00Z'']],
                JStr ''https://app.ticketmaster.com/discovery/v2/events.json?page=1'')]"
  let ?resp = "\<lparr>status_code = 200, body_text = '''', body_json = Some page_three_events\<rparr>"
  have a: "map_of [(''name'', JStr ''Show D'')] ''dates'' = None \<and> ([] :: (string \<times> json) list) = []"
    by simp
  have b: "map_of ([] :: (string \<times> json) list) ''dateTime'' = None" by simp
  have c: "map_of ([] :: (string \<times> json) list) ''localDate'' = None" by simp
  have m: "map (page_of py_str_plain) [ok_reply page_with_next] = map Some ?pages"
    by (simp add: page_with_next_eval)
  have t: "\<forall>pg \<in> set ?pages. py_truthy (snd pg)" by simp
  have s: "status_code ?resp = 200" by simp
  have j: "body_json ?resp = Some page_three_events" by simp
  have e: "page_events page_three_events =
     Inr ([ev_show_b] @ JObj [(''name'', JStr ''Show D'')] # [ev_show_a])"
    by (simp add: page_three_events_eval ev_no_dates_def)
  have r: "all_rows py_str_plain [ev_show_b] = Some [[JStr ''Show B'', JStr ''2025-10-06T00:00:00'']]"
    by (simp add: show_b_row)
  from no_date_still_a_row [OF disjI1, OF a b c m t s j e r,
        where strftime = iso_text and api_key = "''key''" and city = "''Calgary''"
          and country = "''CA''" and start = "''2025-10-01T00:00:00Z''"
          and ?end = "''2025-12-01T00:00:00Z''" and out_csv = "''events.csv''" and rest = "[]"]
  have "extract_event_datetime py_str_plain ev_no_dates = Inr (JStr '''')"
    and "\<exists>pre post.
      snd (run_example [ok_reply page_with_next, ok_reply page_three_events]) =
        pre @ WriteRow [JStr ''Show D'', JStr ''''] # post \<and>
      rows_written pre =
        [[JStr ''event_name'', JStr ''event_datetime''],
         [JStr ''Show A'', JStr ''2025-10-05T19:00:00Z''],
         [JStr ''Show B'', JStr ''2025-10-06T00:00:00'']]"
    by (simp_all add: ev_no_dates_def run_example_def ok_reply_def)
  with a b c m e r show ?thesis by blast
qed

text \<open>
  C5 as stated fails for an event record whose \<^verbatim>\<open>dates\<close> is null: it lacks both fields,
  line 62 raises \<^verbatim>\<open>AttributeError\<close>, and the run ends with no row written for the event.
\<close>

theorem no_date_counterexample:
  "map_of [(''name'', JStr ''Show N''), (''dates'', JNull)] ''dates'' = Some JNull \<and>
   extract_event_datetime py_str_plain ev_null_dates = Inl AttributeError \<and>
   page_events page_null_dates = Inr [ev_null_dates] \<and>
   run_example [ok_reply page_null_dates] =
     (Raised AttributeError,
      [Open ''events.csv'',
       WriteRow [JStr ''event_name'', JStr ''event_datetime''],
       Get (JStr ROOT) (Some example_params),
       Close])"
proof -
  have "extract_event_datetime py_str_plain ev_null_dates = Inl AttributeError"
    by (simp add: extract_event_datetime_def ev_null_dates_def)
  moreover have "page_events page_null_dates = Inr [ev_null_dates]"
    by (simp add: page_events_def page_null_dates_def)
  ultimately show ?thesis by (simp add: run_null_dates)
qed

text \<open>
  C6. In every run the first request goes to the root endpoint with the built parameters,
  and every later request goes to the next link of the page received just before it,
  with no parameters; this includes a next link equal to the root endpoint.
\<close>

theorem later_requests_follow_links:
  "\<exists>pages.
     map (page_of fmt) (take (length pages) script) = map Some pages \<and>
     requests_issued
       (snd (fetch_all_events_to_csv strftime fmt api_key city country start end out_csv script)) =
       (JStr ROOT,
        Some (get_params api_key (get_iso_date strftime start) (get_iso_date strftime end)
                city country 200 ''date,asc''))
       # map (\<lambda>pg. (snd pg, None)) pages"
  using paginate_requests [OF ROOT_truthy, of fmt script]
  by (simp add: fetch_requests)

theorem later_requests_follow_links_witness:
  "requests_issued (snd (run_example [ok_reply page_next_is_root, ok_reply page_last])) =
     [(JStr ROOT, Some example_params), (JStr ROOT, None)] \<and>
   (\<exists>pages.
      map (page_of py_str_plain)
        (take (length pages) [ok_reply page_next_is_root, ok_reply page_last]) = map Some pages \<and>
      [(JStr ROOT, Some example_params), (JStr ROOT, None)] =
        (JStr ROOT, Some example_params) # map (\<lambda>pg. (snd pg, None)) pages)"
proof -
  have r: "requests_issued (snd (run_example [ok_reply page_next_is_root, ok_reply page_last])) =
     [(JStr ROOT, Some example_params), (JStr ROOT, None)]"
    by (simp add: run_root_link)
  from later_requests_follow_links [of py_str_plain
      "[ok_reply page_next_is_root, ok_reply page_last]" iso_text "''key''"
      "''Calgary''" "''CA''" "''2025-10-01T00:00:00Z''" "''2025-12-01T00:00:00Z''" "''events.csv''"]
  show ?thesis
    unfolding example_params_eq run_example_def [symmetric] r using r by simp
qed



text \<open>
  C8. In every run the trace starts with opening the output file and writing the header,
  the file is not opened again, and at the moment any request is issued the rows written
  so far are the header followed by all rows of all pages received so far, each of which
  was a page processed to its end.
\<close>

theorem output_order:
  assumes "snd (fetch_all_events_to_csv strftime fmt api_key city country start end out_csv script)
             = trace"
  shows "take 2 trace = [Open out_csv, WriteRow [JStr ''event_name'', JStr ''event_datetime'']] \<and>
         (\<forall>f. Open f \<notin> set (drop 2 trace)) \<and>
         (\<forall>pre url ps post. trace = pre @ Get url ps # post \<longrightarrow>
            (\<exists>pages.
               map (page_of fmt) (take (length (requests_issued pre)) script) = map Some pages \<and>
               rows_written pre =
                 [JStr ''event_name'', JStr ''event_datetime''] # concat (map fst pages)))"
proof -
  let ?hdr = "[JStr ''event_name'', JStr ''event_datetime'']"
  let ?effs = "snd (paginate fmt (JStr ROOT)
         (Some (get_params api_key (get_iso_date strftime start) (get_iso_date strftime end)
                  city country 200 ''date,asc'')) script)"
  from fetch_effects [of strftime fmt api_key city country start "end" out_csv script] assms
  obtain closing where tr: "trace = Open out_csv # WriteRow ?hdr # ?effs @ closing"
    and cl: "closing = [] \<or> closing = [Close]" by auto
  have a: "take 2 trace = [Open out_csv, WriteRow ?hdr]"
    using tr by (simp add: numeral_2_eq_2)
  have b: "\<forall>f. Open f \<notin> set (drop 2 trace)"
    using tr cl paginate_no_Open [of _ fmt "JStr ROOT" _ script] by (auto simp: numeral_2_eq_2)
  have c: "\<exists>pages.
      map (page_of fmt) (take (length (requests_issued pre)) script) = map Some pages \<and>
      rows_written pre = ?hdr # concat (map fst pages)"
    if split: "trace = pre @ Get url ps # post" for pre url ps post
  proof -
    from split tr obtain pre' where pre: "pre = Open out_csv # WriteRow ?hdr # pre'"
      and eq: "?effs @ closing = pre' @ Get url ps # post"
      by (cases pre; cases "tl pre") auto
    have "\<exists>post'. ?effs = pre' @ Get url ps # post'"
    proof (cases "closing = []")
      case True
      with eq show ?thesis by simp
    next
      case False
      with cl have c: "closing = [Close]" by simp
      with eq have "post \<noteq> []" by (cases post rule: rev_cases) auto
      then obtain post' x where p: "post = post' @ [x]" by (cases post rule: rev_cases) auto
      with eq c have "?effs = pre' @ Get url ps # post'" by simp
      then show ?thesis by blast
    qed
    then obtain post' where "?effs = pre' @ Get url ps # post'" by blast
    from paginate_order [OF this] obtain pages where
      "map (page_of fmt) (take (length (requests_issued pre')) script) = map Some pages"
      "rows_written pre' = concat (map fst pages)" by blast
    with pre show ?thesis by simp
  qed
  from a b c show ?thesis by blast
qed

theorem output_order_witness:
  "snd (run_example [ok_reply page_with_next, ok_reply page_last]) =
     [Open ''events.csv'',
      WriteRow [JStr ''event_name'', JStr ''event_datetime''],
      Get (JStr ROOT) (Some example_params),
      WriteRow [JStr ''Show A'', JStr ''2025-10-05T19:00:00Z'']]
     @ Get (JStr ''https://app.ticketmaster.com/discovery/v2/events.json?page=1'') None
     # [WriteRow [JStr ''Show B'', JStr ''2025-10-06T00:00:00''], Close] \<and>
   (\<exists>pages.
      map (page_of py_str_plain) (take 1 [ok_reply page_with_next, ok_reply page_last]) =
        map Some pages \<and>
      [[JStr ''event_name'', JStr ''event_datetime''],
       [JStr ''Show A'', JStr ''2025-10-05T19:00:00Z'']] =
        [JStr ''event_name'', JStr ''event_datetime''] # concat (map fst pages))"
proof -
  let ?pre = "[Open ''events.csv'',
      WriteRow [JStr ''event_name'', JStr ''event_datetime''],
      Get (JStr ROOT) (Some example_params),
      WriteRow [JStr ''Show A'', JStr ''2025-10-05T19:00:00Z'']]"
  let ?post = "[WriteRow [JStr ''Show B'', JStr ''2025-10-06T00:00:00''], Close]"
  have t: "snd (run_example [ok_reply page_with_next, ok_reply page_last]) =
     ?pre @ Get (JStr ''https://app.ticketmaster.com/discovery/v2/events.json?page=1'') None # ?post"
    by (simp add: run_two_pages)
  from output_order [OF t [unfolded run_example_def]]
  have "\<exists>pages.
      map (page_of py_str_plain)
        (take (length (requests_issued ?pre)) [ok_reply page_with_next, ok_reply page_last]) =
        map Some pages \<and>
      rows_written ?pre = [JStr ''event_name'', JStr ''event_datetime''] # concat (map fst pages)"
    by blast
  with t show ?thesis by simp
qed

text \<open>
  C9, amended. Take a successful response whose body is a mapping with no \<^verbatim>\<open>_embedded\<close>
  key, or with \<^verbatim>\<open>_embedded\<close> a mapping that has no \<^verbatim>\<open>events\<close> key or an empty list of
  events, and in which \<^verbatim>\<open>_links\<close> and, inside it, \<^verbatim>\<open>next\<close> are each absent or a mapping.
  The iteration raises no error and adds no row: it issues its request and then
  continues with the next link when that is true, and returns otherwise, whatever the
  number of events.
\<close>

theorem empty_page_continues_by_link:
  assumes "status_code resp = 200" and "body_json resp = Some (JObj data)"
    and "map_of data ''_embedded'' = None \<or>
         map_of data ''_embedded'' = Some (JObj embedded) \<and>
           (map_of embedded ''events'' = None \<or> map_of embedded ''events'' = Some (JList []))"
    and "map_of data ''_links'' = None \<and> url = JNull \<or>
         map_of data ''_links'' = Some (JObj links) \<and>
           map_of links ''next'' = None \<and> url = JNull \<or>
         map_of data ''_links'' = Some (JObj links) \<and>
           map_of links ''next'' = Some (JObj next_link) \<and> url = field next_link ''href''"
    and "py_truthy next_url"
  shows "paginate fmt next_url params (Reply resp # rest) =
           (if py_truthy url
            then (fst (paginate fmt url None rest),
                  Get next_url (if next_url = JStr ROOT then params else None)
                    # snd (paginate fmt url None rest))
            else (Returned, [Get next_url (if next_url = JStr ROOT then params else None)]))"
proof -
  have "page_events (JObj data) = Inr []"
    using assms(3) by (auto simp: page_events_def)
  moreover have "next_href (JObj data) = Inr url"
    using assms(4) by (auto simp: next_href_def field_def)
  ultimately have "page_of fmt (Reply resp) = Some ([], url)"
    using assms(1,2) by (simp add: page_of_def)
  from paginate_page [OF assms(5) this, of params rest] show ?thesis
    by (simp add: paginate_stop split: prod.splits)
qed

theorem empty_page_continues_by_link_witness:
  "status_code \<lparr>status_code = 200, body_text = '''', body_json = Some page_no_events\<rparr> = 200 \<and>
   map_of [(''_links'', JObj [(''next'', JObj [(''href'',
       JStr ''https://app.ticketmaster.com/discovery/v2/events.json?page=2'')])])] ''_embedded'' = None \<and>
   map_of [(''_links'', JObj [(''next'', JObj [(''href'',
       JStr ''https://app.ticketmaster.com/discovery/v2/events.json?page=2'')])])] ''_links'' =
     Some (JObj [(''next'', JObj [(''href'',
       JStr ''https://app.ticketmaster.com/discovery/v2/events.json?page=2'')])]) \<and>
   field [(''href'', JStr ''https://app.ticketmaster.com/discovery/v2/events.json?page=2'')] ''href'' =
     JStr ''https://app.ticketmaster.com/discovery/v2/events.json?page=2'' \<and>
   paginate py_str_plain (JStr ROOT) (Some example_params) [ok_reply page_no_events, ok_reply page_last] =
     (Returned,
      [Get (JStr ROOT) (Some example_params),
       Get (JStr ''https://app.ticketmaster.com/discovery/v2/events.json?page=2'') None,
       WriteRow [JStr ''Show B'', JStr ''2025-10-06T00:00:00'']])"
proof -
  let ?href = "[(''href'', JStr ''https://app.ticketmaster.com/discovery/v2/events.json?page=2'')]"
  let ?links = "[(''next'', JObj ?href)]"
  let ?data = "[(''_links'', JObj ?links)]"
  let ?resp = "\<lparr>status_code = 200, body_text = '''', body_json = Some page_no_events\<rparr>"
  have s: "status_code ?resp = 200" by simp
  have j: "body_json ?resp = Some (JObj ?data)" by (simp add: page_no_events_def)
  have e: "map_of ?data ''_embedded'' = None \<or>
         map_of ?data ''_embedded'' = Some (JObj []) \<and>
           (map_of [] ''events'' = None \<or> map_of [] ''events'' = Some (JList []))" by simp
  have f: "field ?href ''href'' =
      JStr ''https://app.ticketmaster.com/discovery/v2/events.json?page=2''"
    by (simp add: field_def)
  have l: "map_of ?data ''_links'' = Some (JObj ?links)" by simp
  have n: "map_of ?data ''_links'' = Some (JObj ?links) \<and>
           map_of ?links ''next'' = Some (JObj ?href) \<and>
           JStr ''https://app.ticketmaster.com/discovery/v2/events.json?page=2'' = field ?href ''href''"
    by (simp add: field_def)
  have "paginate py_str_plain JNull None [] = (Returned, [])"
    by (simp add: paginate_stop)
  then have rest: "paginate py_str_plain
      (JStr ''https://app.ticketmaster.com/discovery/v2/events.json?page=2'') None
      [ok_reply page_last] =
      (Returned, [Get (JStr ''https://app.ticketmaster.com/discovery/v2/events.json?page=2'') None,
         WriteRow [JStr ''Show B'', JStr ''2025-10-06T00:00:00'']])"
    using paginate_page [OF _ page_last_eval, of
        "JStr ''https://app.ticketmaster.com/discovery/v2/events.json?page=2''" None "[]"]
    by (simp add: ROOT_def)
  from empty_page_continues_by_link [OF s j e disjI2, OF disjI2, OF n ROOT_truthy,
      of py_str_plain "Some example_params" "[ok_reply page_last]"] rest s f l
  show ?thesis by (simp add: ok_reply_def page_no_events_def)
qed

text \<open>
  C9 as stated fails for a successful response with no events whose \<^verbatim>\<open>_links\<close> is null:
  line 131 raises \<^verbatim>\<open>AttributeError\<close>.
\<close>

theorem empty_page_counterexample:
  "status_code \<lparr>status_code = 200, body_text = '''', body_json = Some page_null_links\<rparr> = 200 \<and>
   page_events page_null_links = Inr [] \<and>
   next_href page_null_links = Inl AttributeError \<and>
   run_example [ok_reply page_null_links, ok_reply page_last] =
     (Raised AttributeError,
      [Open ''events.csv'',
       WriteRow [JStr ''event_name'', JStr ''event_datetime''],
       Get (JStr ROOT) (Some example_params),
       Close])"
proof -
  have "page_events page_null_links = Inr []"
    by (simp add: page_events_def page_null_links_def)
  moreover have "next_href page_null_links = Inl AttributeError"
    by (simp add: next_href_def page_null_links_def)
  ultimately show ?thesis by (simp add: run_null_links)
qed




end
